theory Spec2Isabelle
  imports Complex_Main "HOL-Library.Word"
begin

section \<open>Data model (types.ts)\<close>

text \<open>
  \<^verbatim>\<open>Point\<close> and \<^verbatim>\<open>Rect\<close> hold JavaScript numbers. They are modelled as reals: the
  coordinates come from pointer positions scaled by finite, positive display sizes.
\<close>

record point =
  x :: real
  y :: real

record rect =
  x :: real
  y :: real
  width :: real
  height :: real

datatype ProcessMode = Auto | Manual | Tiled

section \<open>The editor's selection state (components/Editor.tsx)\<close>

text \<open>
  The \<^verbatim>\<open>useState\<close> cells of the component that the pointer handlers and the
  toolbar read and write. Each handler is a function from the state before the event to the
  state after it.
\<close>

record editor =
  selections :: "rect list"
  currentSelection :: "rect option"
  isDrawing :: bool
  startPoint :: "point option"
  mode :: ProcessMode

definition initialEditor :: editor where
  "initialEditor =
     \<lparr>selections = [], currentSelection = None, isDrawing = False,
      startPoint = None, mode = Auto\<rparr>"

text \<open>
  The on-screen geometry read by \<^verbatim>\<open>getCanvasCoordinates\<close>: the bounding client
  rectangle of the canvas element and the canvas's native pixel size. \<^verbatim>\<open>None\<close> stands
  for \<^verbatim>\<open>canvasRef.current\<close> being null. A canvas that receives pointer events is
  displayed with a positive width and height; a division by a zero size, where JavaScript
  gives Infinity or NaN, is outside this model.
\<close>

record geometry =
  left :: real
  top :: real
  dispWidth :: real
  dispHeight :: real
  canvasWidth :: nat
  canvasHeight :: nat

definition getCanvasCoordinates :: "geometry option \<Rightarrow> real \<Rightarrow> real \<Rightarrow> point option" where
  "getCanvasCoordinates cref clientX clientY =
     (case cref of
        None \<Rightarrow> None
      | Some g \<Rightarrow>
          (let scaleX = real (canvasWidth g) / dispWidth g;
               scaleY = real (canvasHeight g) / dispHeight g
           in Some \<lparr>point.x = (clientX - left g) * scaleX, y = (clientY - top g) * scaleY\<rparr>))"

definition handleStart :: "geometry option \<Rightarrow> bool \<Rightarrow> real \<Rightarrow> real \<Rightarrow> editor \<Rightarrow> editor" where
  "handleStart cref isProcessing clientX clientY s =
     (if mode s \<noteq> Manual \<or> isProcessing then s
      else case getCanvasCoordinates cref clientX clientY of
             None \<Rightarrow> s
           | Some p \<Rightarrow>
               s\<lparr>isDrawing := True, startPoint := Some p,
                 currentSelection :=
                   Some \<lparr>rect.x = point.x p, y = point.y p, width = 0, height = 0\<rparr>\<rparr>)"

definition handleMove :: "geometry option \<Rightarrow> real \<Rightarrow> real \<Rightarrow> editor \<Rightarrow> editor" where
  "handleMove cref clientX clientY s =
     (case startPoint s of
        None \<Rightarrow> s
      | Some sp \<Rightarrow>
          (if \<not> isDrawing s \<or> mode s \<noteq> Manual then s
           else case getCanvasCoordinates cref clientX clientY of
                  None \<Rightarrow> s
                | Some current \<Rightarrow>
                    (let x' = min (point.x sp) (point.x current);
                         y' = min (point.y sp) (point.y current);
                         width' = \<bar>point.x current - point.x sp\<bar>;
                         height' = \<bar>point.y current - point.y sp\<bar>
                     in s\<lparr>currentSelection :=
                            Some \<lparr>rect.x = x', y = y', width = width', height = height'\<rparr>\<rparr>)))"

definition handleEnd :: "editor \<Rightarrow> editor" where
  "handleEnd s =
     (let s1 = (case currentSelection s of
                  Some cur \<Rightarrow>
                    (if isDrawing s \<and> rect.width cur > 5 \<and> rect.height cur > 5
                     then s\<lparr>selections := selections s @ [cur]\<rparr> else s)
                | None \<Rightarrow> s)
      in s1\<lparr>isDrawing := False, startPoint := None, currentSelection := None\<rparr>)"

text \<open>
  \<^verbatim>\<open>Array.prototype.slice(start, end)\<close>: a negative index counts from the end of the
  array, and both ends are clamped to the array.
\<close>

definition slice :: "'a list \<Rightarrow> int \<Rightarrow> int \<Rightarrow> 'a list" where
  "slice xs start end' =
     (let len = int (length xs);
          k = (if start < 0 then max (len + start) 0 else min start len);
          final = (if end' < 0 then max (len + end') 0 else min end' len)
      in take (nat (final - k)) (drop (nat k) xs))"

definition undoSelection :: "editor \<Rightarrow> editor" where
  "undoSelection s = s\<lparr>selections := slice (selections s) 0 (- 1)\<rparr>"

definition clearSelections :: "editor \<Rightarrow> editor" where
  "clearSelections s = s\<lparr>selections := []\<rparr>"

text \<open>The three toolbar buttons. Only the first two reset the committed list.\<close>

definition selectAuto :: "editor \<Rightarrow> editor" where
  "selectAuto s = s\<lparr>mode := Auto, selections := []\<rparr>"

definition selectTiled :: "editor \<Rightarrow> editor" where
  "selectTiled s = s\<lparr>mode := Tiled, selections := []\<rparr>"

definition selectManual :: "editor \<Rightarrow> editor" where
  "selectManual s = s\<lparr>mode := Manual\<rparr>"

fun selectMode :: "ProcessMode \<Rightarrow> editor \<Rightarrow> editor" where
  "selectMode Auto s = selectAuto s"
| "selectMode Tiled s = selectTiled s"
| "selectMode Manual s = selectManual s"

text \<open>
  The events the component reacts to, each with what it reads from the page at that moment
  (the geometry changes on resize; \<^verbatim>\<open>isProcessing\<close> is a prop), and the run of a
  sequence of events from the initial state.
\<close>

datatype event =
    PointerStart "geometry option" bool real real
  | PointerMove "geometry option" real real
  | PointerEnd
  | UndoClick
  | ClearClick
  | ModeClick ProcessMode

fun step :: "editor \<Rightarrow> event \<Rightarrow> editor" where
  "step s (PointerStart cref isProcessing cx cy) = handleStart cref isProcessing cx cy s"
| "step s (PointerMove cref cx cy) = handleMove cref cx cy s"
| "step s PointerEnd = handleEnd s"
| "step s UndoClick = undoSelection s"
| "step s ClearClick = clearSelections s"
| "step s (ModeClick m) = selectMode m s"

definition run :: "event list \<Rightarrow> editor" where
  "run evs = foldl step initialEditor evs"

definition rectOk :: "rect \<Rightarrow> bool" where
  "rectOk r = (0 \<le> rect.width r \<and> 0 \<le> rect.height r)"

definition rectsOk :: "editor \<Rightarrow> bool" where
  "rectsOk s =
     (list_all rectOk (selections s) \<and>
      (case currentSelection s of None \<Rightarrow> True | Some r \<Rightarrow> rectOk r))"

section \<open>The canvas the code draws on\<close>

text \<open>
  A decoded image and the backing store of a canvas are both a grid of pixels, and a pixel is
  four bytes: red, green, blue and alpha. An image holds its colours as its file does, not
  premultiplied; the backing store of a 2D canvas holds them premultiplied by alpha. Drawing
  an image onto a canvas multiplies, reading a canvas back divides again. Only the positions
  inside \<open>width\<close> and \<open>height\<close> are part of the bitmap.
\<close>

type_synonym byte = "8 word"

record pixel =
  red :: byte
  green :: byte
  blue :: byte
  alpha :: byte

record bitmap =
  width :: nat
  height :: nat
  pixelAt :: "nat \<Rightarrow> nat \<Rightarrow> pixel"

definition transparent :: pixel where
  "transparent = \<lparr>red = 0, green = 0, blue = 0, alpha = 0\<rparr>"

definition black :: pixel where
  "black = \<lparr>red = 0, green = 0, blue = 0, alpha = 255\<rparr>"

definition white :: pixel where
  "white = \<lparr>red = 255, green = 255, blue = 255, alpha = 255\<rparr>"

text \<open>\<^verbatim>\<open>document.createElement('canvas')\<close> with its width and height set: transparent black.\<close>

definition createCanvas :: "nat \<Rightarrow> nat \<Rightarrow> bitmap" where
  "createCanvas w h = \<lparr>width = w, height = h, pixelAt = \<lambda>i j. transparent\<rparr>"

definition canvasPixel :: "bitmap \<Rightarrow> nat \<Rightarrow> nat \<Rightarrow> pixel" where
  "canvasPixel c i j =
     (if i < bitmap.width c \<and> j < bitmap.height c then pixelAt c i j else transparent)"

subsection \<open>Compositing\<close>

text \<open>
  The two Porter-Duff operators the code selects through
  \<^verbatim>\<open>globalCompositeOperation\<close>, on premultiplied bytes: products of two bytes are
  divided by 255 and rounded, sums saturate at 255.
  Source-over: \<open>co = cs + cb * (1 - as)\<close>. Destination-in: \<open>co = cb * as\<close>.
\<close>

definition scaleByte :: "byte \<Rightarrow> byte \<Rightarrow> byte" where
  "scaleByte c a = of_nat ((unat c * unat a + 127) div 255)"

definition addClamp :: "byte \<Rightarrow> byte \<Rightarrow> byte" where
  "addClamp a b = of_nat (min 255 (unat a + unat b))"

datatype compositeOp = SourceOver | DestinationIn

definition sourceOver :: "pixel \<Rightarrow> pixel \<Rightarrow> pixel" where
  "sourceOver s d =
     (let k = 255 - alpha s
      in \<lparr>red = addClamp (red s) (scaleByte (red d) k),
          green = addClamp (green s) (scaleByte (green d) k),
          blue = addClamp (blue s) (scaleByte (blue d) k),
          alpha = addClamp (alpha s) (scaleByte (alpha d) k)\<rparr>)"

definition destinationIn :: "pixel \<Rightarrow> pixel \<Rightarrow> pixel" where
  "destinationIn s d =
     \<lparr>red = scaleByte (red d) (alpha s),
      green = scaleByte (green d) (alpha s),
      blue = scaleByte (blue d) (alpha s),
      alpha = scaleByte (alpha d) (alpha s)\<rparr>"

fun blend :: "compositeOp \<Rightarrow> pixel \<Rightarrow> pixel \<Rightarrow> pixel" where
  "blend SourceOver s d = sourceOver s d"
| "blend DestinationIn s d = destinationIn s d"

text \<open>
  From an image's pixel to the canvas's and back. The image that a canvas holds, with the
  colours divided again, is what \<^verbatim>\<open>getImageData\<close> reads and \<^verbatim>\<open>toDataURL\<close> encodes.
\<close>

definition unmultiply :: "byte \<Rightarrow> byte \<Rightarrow> byte" where
  "unmultiply c a = of_nat (min 255 ((unat c * 255 + unat a div 2) div unat a))"

definition straight :: "pixel \<Rightarrow> pixel" where
  "straight p =
     (if alpha p = 0 then transparent
      else \<lparr>red = unmultiply (red p) (alpha p), green = unmultiply (green p) (alpha p),
            blue = unmultiply (blue p) (alpha p), alpha = alpha p\<rparr>)"

definition premultiply :: "pixel \<Rightarrow> pixel" where
  "premultiply p =
     \<lparr>red = scaleByte (red p) (alpha p), green = scaleByte (green p) (alpha p),
      blue = scaleByte (blue p) (alpha p), alpha = alpha p\<rparr>"

definition premultiplied :: "bitmap \<Rightarrow> bitmap" where
  "premultiplied img = img\<lparr>pixelAt := \<lambda>i j. premultiply (pixelAt img i j)\<rparr>"

definition canvasImage :: "bitmap \<Rightarrow> bitmap" where
  "canvasImage c = c\<lparr>pixelAt := \<lambda>i j. straight (canvasPixel c i j)\<rparr>"

text \<open>
  \<^verbatim>\<open>ctx.drawImage(src, 0, 0)\<close>: the source at its own size, its top left corner on
  the canvas's, composited pixel by pixel inside the source's extent. The source is a canvas,
  or an image already multiplied.
\<close>

definition drawImage :: "compositeOp \<Rightarrow> bitmap \<Rightarrow> bitmap \<Rightarrow> bitmap" where
  "drawImage op src dst =
     dst\<lparr>pixelAt := \<lambda>i j.
       if i < bitmap.width dst \<and> j < bitmap.height dst
          \<and> i < bitmap.width src \<and> j < bitmap.height src
       then blend op (pixelAt src i j) (pixelAt dst i j)
       else pixelAt dst i j\<rparr>"

text \<open>
  \<^verbatim>\<open>ctx.drawImage(src, 0, 0, dw, dh)\<close> with an image: the whole source scaled to \<open>dw\<close>
  by \<open>dh\<close>. Which filter the browser scales with is its own choice, so the filter is a
  parameter: \<open>resample src dw dh i j\<close> is pixel \<open>(i, j)\<close> of the image \<open>src\<close> scaled to
  \<open>dw\<close> by \<open>dh\<close>.
\<close>

type_synonym resampler = "bitmap \<Rightarrow> nat \<Rightarrow> nat \<Rightarrow> nat \<Rightarrow> nat \<Rightarrow> pixel"

definition drawImageScaled ::
  "resampler \<Rightarrow> compositeOp \<Rightarrow> bitmap \<Rightarrow> nat \<Rightarrow> nat \<Rightarrow> bitmap \<Rightarrow> bitmap" where
  "drawImageScaled resample op src dw dh dst =
     dst\<lparr>pixelAt := \<lambda>i j.
       if i < bitmap.width dst \<and> j < bitmap.height dst \<and> i < dw \<and> j < dh
       then blend op (premultiply (resample src dw dh i j)) (pixelAt dst i j)
       else pixelAt dst i j\<rparr>"

text \<open>Scaling without smoothing: each target pixel takes the source pixel it falls on.\<close>

definition nearest :: resampler where
  "nearest src dw dh i j =
     canvasPixel src (i * bitmap.width src div dw) (j * bitmap.height src div dh)"




subsection \<open>Filling rectangles\<close>

text \<open>
  \<^verbatim>\<open>ctx.fillRect(x, y, w, h)\<close> with an opaque fill colour. The rectangle's corners are
  real numbers; a negative width or height extends to the other side. The canvas
  anti-aliases: a pixel that the rectangle covers in part receives the colour at an opacity
  equal to the covered share of its area, rounded to a byte.
\<close>

definition overlap :: "real \<Rightarrow> real \<Rightarrow> nat \<Rightarrow> real" where
  "overlap a b k = max 0 (min (real k + 1) (max a b) - max (real k) (min a b))"

definition coverage :: "rect \<Rightarrow> nat \<Rightarrow> nat \<Rightarrow> byte" where
  "coverage r i j =
     of_nat (nat \<lfloor>255 * (overlap (rect.x r) (rect.x r + rect.width r) i
                          * overlap (rect.y r) (rect.y r + rect.height r) j) + 1 / 2\<rfloor>)"

definition tint :: "pixel \<Rightarrow> byte \<Rightarrow> pixel" where
  "tint c a =
     \<lparr>red = scaleByte (red c) a, green = scaleByte (green c) a,
      blue = scaleByte (blue c) a, alpha = scaleByte (alpha c) a\<rparr>"

definition fillRect :: "pixel \<Rightarrow> rect \<Rightarrow> bitmap \<Rightarrow> bitmap" where
  "fillRect fillStyle r c =
     c\<lparr>pixelAt := \<lambda>i j.
       if i < bitmap.width c \<and> j < bitmap.height c
       then sourceOver (tint fillStyle (coverage r i j)) (pixelAt c i j)
       else pixelAt c i j\<rparr>"

subsection \<open>Reading and writing pixel data\<close>

text \<open>
  \<^verbatim>\<open>ImageData.data\<close> is a flat array of bytes, four per pixel, row by row, with the
  colours not premultiplied. \<^verbatim>\<open>getImageData(0, 0, sw, sh)\<close> throws an IndexSizeError
  when \<open>sw\<close> or \<open>sh\<close> is 0.
\<close>

datatype canvasName = MainCanvas | MaskCanvas | AlphaMaskCanvas

datatype error =
    ImageLoadError
  | ContextError canvasName
  | IndexSizeError
  | ApiError string
  | TypeError
  | NoImageData

record imageData =
  iwidth :: nat
  iheight :: nat
  data :: "byte list"

definition bytesOf :: "pixel \<Rightarrow> byte list" where
  "bytesOf p = [red p, green p, blue p, alpha p]"

definition flatten :: "pixel list \<Rightarrow> byte list" where
  "flatten ps = concat (map bytesOf ps)"

definition pixelGrid :: "(nat \<Rightarrow> nat \<Rightarrow> pixel) \<Rightarrow> nat \<Rightarrow> nat \<Rightarrow> pixel list" where
  "pixelGrid f w h = concat (map (\<lambda>j. map (\<lambda>i. f i j) [0..<w]) [0..<h])"

definition getImageData :: "bitmap \<Rightarrow> nat \<Rightarrow> nat \<Rightarrow> error + imageData" where
  "getImageData c sw sh =
     (if sw = 0 \<or> sh = 0 then Inl IndexSizeError
      else Inr \<lparr>iwidth = sw, iheight = sh,
                data = flatten (pixelGrid (\<lambda>i j. straight (canvasPixel c i j)) sw sh)\<rparr>)"

text \<open>A read past the end of a typed array gives \<^verbatim>\<open>undefined\<close>, which a byte array stores as 0.\<close>

definition readByte :: "byte list \<Rightarrow> nat \<Rightarrow> byte" where
  "readByte d k = (if k < length d then d ! k else 0)"

definition putImageData :: "imageData \<Rightarrow> bitmap \<Rightarrow> bitmap" where
  "putImageData img c =
     c\<lparr>pixelAt := \<lambda>i j.
       if i < bitmap.width c \<and> j < bitmap.height c \<and> i < iwidth img \<and> j < iheight img
       then (let k = 4 * (j * iwidth img + i)
             in premultiply \<lparr>red = readByte (data img) k, green = readByte (data img) (k + 1),
                             blue = readByte (data img) (k + 2),
                             alpha = readByte (data img) (k + 3)\<rparr>)
       else pixelAt c i j\<rparr>"

section \<open>Mask rasterisation and submission (components/Editor.tsx)\<close>

text \<open>
  The mask canvas of \<^verbatim>\<open>handleProcessClick\<close>: the size of the image, filled black,
  then every committed rectangle filled white, in order.
\<close>

definition buildMask :: "rect list \<Rightarrow> nat \<Rightarrow> nat \<Rightarrow> bitmap" where
  "buildMask rs w h =
     foldl (\<lambda>c r. fillRect white r c)
       (fillRect black \<lparr>rect.x = 0, y = 0, width = real w, height = real h\<rparr> (createCanvas w h))
       rs"

text \<open>A rectangle whose four numbers are whole: its edges run between pixels.\<close>

definition aligned :: "rect \<Rightarrow> bool" where
  "aligned r =
     (rect.x r \<in> \<int> \<and> rect.y r \<in> \<int> \<and> rect.width r \<in> \<int> \<and> rect.height r \<in> \<int>)"

text \<open>
  What a click on the process button does: it shows the alert, or calls \<^verbatim>\<open>onProcess\<close>
  (the only way to the external service), or neither. \<open>toDataURL\<close> encodes the mask canvas
  as a PNG data URL; \<open>hasContext\<close> says whether \<^verbatim>\<open>getContext('2d')\<close> returned a
  context; \<open>imgW\<close> and \<open>imgH\<close> are the size of the image. The mask canvas holds only fills,
  so encoding it does not throw. The handler sets no state.
\<close>

datatype outcome = Alert | OnProcess "string option" ProcessMode | Nothing

definition handleProcessClick ::
  "(bitmap \<Rightarrow> string) \<Rightarrow> bool \<Rightarrow> nat \<Rightarrow> nat \<Rightarrow> editor \<Rightarrow> outcome \<times> editor" where
  "handleProcessClick toDataURL hasContext imgW imgH s =
     (if mode s = Manual then
        (if length (selections s) = 0 then (Alert, s)
         else if hasContext
              then (OnProcess (Some (toDataURL (buildMask (selections s) imgW imgH))) Manual, s)
              else (Nothing, s))
      else (OnProcess None (mode s), s))"

section \<open>Compositing the result onto the original (services/geminiService.ts)\<close>

text \<open>
  What \<^verbatim>\<open>compositeImage\<close> asks of the browser: decoding an image from its URL
  (\<open>None\<close>: the load is rejected), a 2D context for each of the three canvases it creates
  (\<open>False\<close>: \<^verbatim>\<open>getContext\<close> returned null), the scaling filter, and the PNG encoder
  (\<open>None\<close>: \<^verbatim>\<open>toDataURL\<close> throws).
\<close>

record browser =
  loadImage :: "string \<Rightarrow> bitmap option"
  hasContext :: "canvasName \<Rightarrow> bool"
  resample :: resampler
  toDataURL :: "bitmap \<Rightarrow> string option"

text \<open>
  The loop over \<^verbatim>\<open>imageData.data\<close>:
  \<^verbatim>\<open>for (let i = 0; i < data.length; i += 4) { data[i+3] = data[i+1]; }\<close>.
  A write past the end of a typed array is ignored, as \<open>list_update\<close> ignores it.
\<close>

function alphaLoop :: "nat \<Rightarrow> byte list \<Rightarrow> byte list" where
  "alphaLoop i d =
     (if i < length d then alphaLoop (i + 4) (d[i + 3 := readByte d (i + 1)]) else d)"
  by pat_completeness auto
termination
  by (relation "measure (\<lambda>(i, d). length d - i)") auto

declare alphaLoop.simps [simp del]

text \<open>What one round of the loop does to the four bytes of a pixel.\<close>

definition greenToAlpha :: "pixel \<Rightarrow> pixel" where
  "greenToAlpha p = p\<lparr>alpha := green p\<rparr>"

text \<open>Step 3 of the source: the mask scaled onto its own canvas, its green channel made its alpha.\<close>

definition alphaMask :: "browser \<Rightarrow> bitmap \<Rightarrow> nat \<Rightarrow> nat \<Rightarrow> error + bitmap" where
  "alphaMask env mask' w h =
     (if \<not> hasContext env AlphaMaskCanvas then Inl (ContextError AlphaMaskCanvas)
      else
        (let alphaMaskCanvas =
               drawImageScaled (resample env) SourceOver mask' w h (createCanvas w h)
         in case getImageData alphaMaskCanvas w h of
              Inl e \<Rightarrow> Inl e
            | Inr imageData \<Rightarrow>
                Inr (putImageData (imageData\<lparr>data := alphaLoop 0 (data imageData)\<rparr>)
                       alphaMaskCanvas)))"

text \<open>The body of the \<^verbatim>\<open>try\<close> up to the canvas that is encoded; \<open>Inl\<close> is a throw.\<close>

definition compositeCanvas :: "browser \<Rightarrow> string \<Rightarrow> string \<Rightarrow> string \<Rightarrow> error + bitmap" where
  "compositeCanvas env originalB64 maskB64 resultB64 =
     (case loadImage env originalB64 of
        None \<Rightarrow> Inl ImageLoadError
      | Some original \<Rightarrow>
     (case loadImage env maskB64 of
        None \<Rightarrow> Inl ImageLoadError
      | Some mask' \<Rightarrow>
     (case loadImage env resultB64 of
        None \<Rightarrow> Inl ImageLoadError
      | Some result \<Rightarrow>
          (let w = bitmap.width original; h = bitmap.height original
           in if \<not> hasContext env MainCanvas then Inl (ContextError MainCanvas)
              else
                (let canvas = drawImage SourceOver (premultiplied original) (createCanvas w h)
                 in if \<not> hasContext env MaskCanvas then Inl (ContextError MaskCanvas)
                    else
                      (let maskCanvas =
                             drawImageScaled (resample env) SourceOver result w h
                               (createCanvas w h)
                       in case alphaMask env mask' w h of
                            Inl e \<Rightarrow> Inl e
                          | Inr alphaMaskCanvas \<Rightarrow>
                              Inr (drawImage SourceOver
                                     (drawImage DestinationIn alphaMaskCanvas maskCanvas)
                                     canvas)))))))"

definition compositeImage :: "browser \<Rightarrow> string \<Rightarrow> string \<Rightarrow> string \<Rightarrow> string" where
  "compositeImage env originalB64 maskB64 resultB64 =
     (case compositeCanvas env originalB64 maskB64 resultB64 of
        Inl e \<Rightarrow> resultB64
      | Inr canvas \<Rightarrow>
          (case toDataURL env canvas of None \<Rightarrow> resultB64 | Some url \<Rightarrow> url))"

text \<open>
  The value the loop calls \<^verbatim>\<open>brightness\<close> for a pixel of the canvas it reads: the
  green byte of the pixel's data. And a pixel of the image that is encoded, if there is one,
  and the size of that image.
\<close>

definition brightness :: "pixel \<Rightarrow> byte" where
  "brightness p = green (straight p)"

definition outputPixel :: "error + bitmap \<Rightarrow> nat \<Rightarrow> nat \<Rightarrow> pixel option" where
  "outputPixel res i j =
     (case res of Inl e \<Rightarrow> None | Inr c \<Rightarrow> Some (pixelAt (canvasImage c) i j))"


section \<open>The request to the model (services/geminiService.ts)\<close>

datatype part = InlineData string string | Text string

text \<open>
  The response as the code reads it. A part of a candidate: \<open>None\<close> without
  \<^verbatim>\<open>inlineData\<close>, \<open>Some None\<close> when it has no \<^verbatim>\<open>data\<close>. A candidate: the parts of
  its content, \<open>None\<close> when there is none to read (the read throws a TypeError). The
  response: its candidates, \<open>None\<close> when undefined.
\<close>

type_synonym responsePart = "string option option"
type_synonym candidate = "responsePart list option"
type_synonym response = "candidate list option"

definition tiledPrompt :: string where
  "tiledPrompt = ''This image contains a repeating, tiled watermark pattern covering the entire image (e.g., text overlaid in a grid). Detect and remove ALL instances of this watermark text completely. Restore the underlying background seamlessly. Maintain the original image quality, colors, and non-watermark details. Output ONLY the clean image.''"

definition maskPrompt :: string where
  "maskPrompt = ''The second image is a mask (white area represents the selection). Remove the content located within the white area of the mask from the first image. Inpaint the area to match the surrounding background seamlessly. Output the result image. Do not change any part of the image outside the mask.''"

definition autoPrompt :: string where
  "autoPrompt = ''Detect and remove all watermarks, text overlays, and logos from this image. Output the clean image. STRICTLY preserve the quality, resolution, and details of the non-watermarked areas.''"

text \<open>
  \<^verbatim>\<open>s.replace(/^data:image\/(png|jpeg|jpg|webp);base64,/, '')\<close>: the first of the four
  prefixes that the string starts with is removed.
\<close>

fun dropFirstPrefix :: "string list \<Rightarrow> string \<Rightarrow> string" where
  "dropFirstPrefix [] s = s"
| "dropFirstPrefix (p # ps) s =
     (if take (length p) s = p then drop (length p) s else dropFirstPrefix ps s)"

definition cleanBase64 :: "string \<Rightarrow> string" where
  "cleanBase64 s =
     dropFirstPrefix
       (map (\<lambda>f. ''data:image/'' @ f @ '';base64,'') [''png'', ''jpeg'', ''jpg'', ''webp''])
       s"

text \<open>A string is truthy when it is neither null nor empty.\<close>

definition truthy :: "string option \<Rightarrow> bool" where
  "truthy m = (case m of None \<Rightarrow> False | Some s \<Rightarrow> s \<noteq> [])"

definition requestParts :: "string \<Rightarrow> string option \<Rightarrow> ProcessMode \<Rightarrow> part list" where
  "requestParts imageBase64 maskBase64 mode' =
     (let parts = [InlineData ''image/png'' (cleanBase64 imageBase64)]
      in if mode' = Tiled then parts @ [Text tiledPrompt]
         else if truthy maskBase64
              then parts @ [InlineData ''image/png'' (cleanBase64 (the maskBase64))]
                     @ [Text maskPrompt]
              else parts @ [Text autoPrompt])"

text \<open>The first part of the first candidate that carries image data, as a data URL.\<close>

fun firstImage :: "responsePart list \<Rightarrow> string option" where
  "firstImage [] = None"
| "firstImage (p # ps) =
     (case p of
        Some (Some d) \<Rightarrow> (if d \<noteq> [] then Some (''data:image/png;base64,'' @ d)
                          else firstImage ps)
      | _ \<Rightarrow> firstImage ps)"

text \<open>
  The scan of the response for the image: the read of the first candidate's parts throws a
  TypeError when there are none, and without an image the code throws
  \<^verbatim>\<open>No image data received from AI.\<close>
\<close>

definition firstResult :: "response \<Rightarrow> error + string" where
  "firstResult response =
     (case response of
        Some (c # cs) \<Rightarrow>
          (case c of
             None \<Rightarrow> Inl TypeError
           | Some parts \<Rightarrow>
               (case firstImage parts of
                  Some resultBase64 \<Rightarrow> Inr resultBase64
                | None \<Rightarrow> Inl NoImageData))
      | _ \<Rightarrow> Inl NoImageData)"

text \<open>
  \<open>ai\<close> is the call \<^verbatim>\<open>ai.models.generateContent\<close> with the request's parts; \<open>Inl\<close>
  is a rejection. Every error is logged and thrown again.
\<close>

definition removeWatermark ::
  "(part list \<Rightarrow> error + response) \<Rightarrow> browser \<Rightarrow> string \<Rightarrow> string option \<Rightarrow> ProcessMode
     \<Rightarrow> error + string" where
  "removeWatermark ai env imageBase64 maskBase64 mode' =
     (case ai (requestParts imageBase64 maskBase64 mode') of
        Inl e \<Rightarrow> Inl e
      | Inr response \<Rightarrow>
          (case firstResult response of
             Inl e \<Rightarrow> Inl e
           | Inr resultBase64 \<Rightarrow>
               (if truthy maskBase64 \<and> mode' = Manual
                then Inr (compositeImage env imageBase64 (the maskBase64) resultBase64)
                else Inr resultBase64)))"

section \<open>Example inputs\<close>

text \<open>A drag in progress, a display of 100 by 100 pixels showing a 100 by 100 image, and one
  complete drag from (10, 10) to (30, 30) in manual mode.\<close>

definition dragging :: editor where
  "dragging =
     \<lparr>selections = [],
      currentSelection = Some \<lparr>rect.x = 1, y = 1, width = 9, height = 11\<rparr>,
      isDrawing = True, startPoint = Some \<lparr>point.x = 1, y = 1\<rparr>, mode = Manual\<rparr>"

definition screen :: geometry where
  "screen =
     \<lparr>left = 0, top = 0, dispWidth = 100, dispHeight = 100,
      canvasWidth = 100, canvasHeight = 100\<rparr>"

definition oneDrag :: "event list" where
  "oneDrag =
     [ModeClick Manual, PointerStart (Some screen) False 10 10,
      PointerMove (Some screen) 30 30, PointerEnd]"

text \<open>An encoder that gives every canvas the same URL.\<close>

definition constUrl :: "bitmap \<Rightarrow> string" where
  "constUrl c = ''data:image/png;base64,mask''"

text \<open>A rectangle on pixel boundaries, and one whose left edge cuts a pixel in half.\<close>

definition block :: rect where
  "block = \<lparr>rect.x = 10, y = 10, width = 20, height = 20\<rparr>"

definition offGrid :: rect where
  "offGrid = \<lparr>rect.x = 21 / 2, y = 10, width = 20, height = 20\<rparr>"

text \<open>
  Images of one colour and images of two pixels side by side; a browser that decodes the
  listed URLs, always has a context, scales without smoothing and always encodes; and three
  scenes: a mask that keeps the left pixel and replaces the right one, a translucent
  replacement, and a replacement of twice the original's size.
\<close>

definition solid :: "nat \<Rightarrow> nat \<Rightarrow> pixel \<Rightarrow> bitmap" where
  "solid w h p = \<lparr>bitmap.width = w, height = h, pixelAt = \<lambda>i j. p\<rparr>"

definition twoPixels :: "pixel \<Rightarrow> pixel \<Rightarrow> bitmap" where
  "twoPixels p q = \<lparr>bitmap.width = 2, height = 1, pixelAt = \<lambda>i j. if i = 0 then p else q\<rparr>"

definition files :: "(string \<times> bitmap) list \<Rightarrow> browser" where
  "files fs = \<lparr>loadImage = map_of fs, hasContext = \<lambda>c. True, resample = nearest,
     toDataURL = \<lambda>c. Some ''data:image/png;base64,out''\<rparr>"

definition sceneA :: browser where
  "sceneA = files
     [(''original'', twoPixels \<lparr>red = 10, green = 20, blue = 30, alpha = 255\<rparr>
                       \<lparr>red = 40, green = 50, blue = 60, alpha = 255\<rparr>),
      (''mask'', twoPixels black white),
      (''result'', solid 2 1 \<lparr>red = 255, green = 0, blue = 0, alpha = 255\<rparr>)]"

definition sceneGlass :: browser where
  "sceneGlass = files
     [(''original'', solid 1 1 \<lparr>red = 10, green = 20, blue = 30, alpha = 255\<rparr>),
      (''mask'', solid 1 1 white),
      (''result'', solid 1 1 \<lparr>red = 200, green = 0, blue = 0, alpha = 128\<rparr>)]"


text \<open>
  A translucent original under a black mask. The scene of twice the size with no context for
  the mask canvas. An original of two pixels with a mask and a replacement of four, each of
  two colours side by side.
\<close>

definition sceneVeil :: browser where
  "sceneVeil = files
     [(''original'', solid 1 1 \<lparr>red = 200, green = 100, blue = 50, alpha = 128\<rparr>),
      (''mask'', solid 1 1 black),
      (''result'', solid 1 1 \<lparr>red = 255, green = 0, blue = 0, alpha = 255\<rparr>)]"




section \<open>Selection model: proofs\<close>

lemma slice_drop_last: "slice xs 0 (- 1) = butlast xs"
  by (simp add: slice_def butlast_conv_take nat_diff_distrib' max_def)

text \<open>
  C8: undo removes exactly the most recently appended rectangle and keeps the ones before
  it, so the count goes from N to N - 1; on the empty list it changes nothing; clear always
  gives the empty list.
\<close>

theorem undo_clear_selections:
  "selections (undoSelection (s\<lparr>selections := rs @ [r]\<rparr>)) = rs
   \<and> length (selections (undoSelection s)) = length (selections s) - 1
   \<and> undoSelection (s\<lparr>selections := []\<rparr>) = s\<lparr>selections := []\<rparr>
   \<and> selections (clearSelections s) = []"
  by (simp add: undoSelection_def clearSelections_def slice_drop_last)

text \<open>
  C5: when a drag ends, the in-progress rectangle is appended to the committed list exactly
  when its width and its height are both above 5, and dropped otherwise; either way the
  drawing flag, the anchor point and the in-progress rectangle are cleared.
\<close>

theorem handleEnd_commits:
  "isDrawing s \<Longrightarrow> currentSelection s = Some r \<Longrightarrow>
     selections (handleEnd s) =
       (if 5 < rect.width r \<and> 5 < rect.height r then selections s @ [r] else selections s)
     \<and> \<not> isDrawing (handleEnd s) \<and> startPoint (handleEnd s) = None
     \<and> currentSelection (handleEnd s) = None \<and> mode (handleEnd s) = mode s"
  by (simp add: handleEnd_def)

theorem handleEnd_commits_witness:
  "selections (handleEnd dragging) = [\<lparr>rect.x = 1, y = 1, width = 9, height = 11\<rparr>]
   \<and> selections (handleEnd (dragging\<lparr>currentSelection := Some \<lparr>rect.x = 1, y = 1, width = 9, height = 5\<rparr>\<rparr>)) = []"
  using handleEnd_commits [of dragging "\<lparr>rect.x = 1, y = 1, width = 9, height = 11\<rparr>"]
    handleEnd_commits [of "dragging\<lparr>currentSelection := Some \<lparr>rect.x = 1, y = 1, width = 9, height = 5\<rparr>\<rparr>" "\<lparr>rect.x = 1, y = 1, width = 9, height = 5\<rparr>"]
  by (simp add: dragging_def)

lemma run_oneDrag_selections:
  "selections (run oneDrag) = [\<lparr>rect.x = 10, y = 10, width = 20, height = 20\<rparr>]"
  by (simp add: run_def oneDrag_def screen_def handleStart_def handleMove_def handleEnd_def
      selectManual_def initialEditor_def getCanvasCoordinates_def)

lemma run_oneDrag_mode: "mode (run oneDrag) = Manual"
  by (simp add: run_def oneDrag_def screen_def handleStart_def handleMove_def handleEnd_def
      selectManual_def initialEditor_def getCanvasCoordinates_def)

text \<open>
  C6, as the claim states it, fails: after one committed drag in manual mode, selecting the
  manual mode again leaves the committed rectangle in the list.
\<close>

theorem manual_click_keeps_selections:
  "selections (run (oneDrag @ [ModeClick Manual])) \<noteq> []"
  by (simp add: run_def oneDrag_def screen_def handleStart_def handleMove_def handleEnd_def
      selectManual_def initialEditor_def getCanvasCoordinates_def)

text \<open>
  C6, amended: selecting the auto mode or the tiled mode leaves the committed list empty;
  selecting the manual mode leaves the committed list as it was, so that switching away from
  manual and back gives an empty list.
\<close>

theorem mode_buttons:
  "selections (selectAuto s) = [] \<and> selections (selectTiled s) = []
   \<and> selections (selectManual s) = selections s
   \<and> selections (selectManual (selectAuto s)) = []
   \<and> selections (selectManual (selectTiled s)) = []"
  by (simp add: selectAuto_def selectTiled_def selectManual_def)

lemma list_all_butlast: "list_all P xs \<Longrightarrow> list_all P (butlast xs)"
  by (auto simp: list_all_iff dest: in_set_butlastD)

lemma step_rectsOk: "rectsOk s \<Longrightarrow> rectsOk (step s e)"
proof (cases e)
  case (PointerStart cref isProcessing cx cy)
  assume "rectsOk s"
  then show ?thesis using PointerStart
    by (auto simp: rectsOk_def rectOk_def handleStart_def split: option.splits)
next
  case (PointerMove cref cx cy)
  assume "rectsOk s"
  then show ?thesis using PointerMove
    by (auto simp: rectsOk_def rectOk_def handleMove_def Let_def split: option.splits)
next
  case PointerEnd
  assume "rectsOk s"
  then show ?thesis using PointerEnd
    by (auto simp: rectsOk_def handleEnd_def Let_def split: option.splits)
next
  case UndoClick
  assume "rectsOk s"
  then show ?thesis using UndoClick
    by (simp add: rectsOk_def undoSelection_def slice_drop_last list_all_butlast)
next
  case ClearClick
  assume "rectsOk s"
  then show ?thesis using ClearClick
    by (simp add: rectsOk_def clearSelections_def)
next
  case (ModeClick m)
  assume "rectsOk s"
  then show ?thesis using ModeClick
    by (cases m) (simp_all add: rectsOk_def selectAuto_def selectTiled_def selectManual_def)
qed

lemma run_rectsOk: "rectsOk (run evs)"
proof (induction evs rule: rev_induct)
  case Nil
  show ?case by (simp add: run_def rectsOk_def initialEditor_def)
next
  case (snoc e evs)
  then show ?case using step_rectsOk [of "run evs" e] by (simp add: run_def)
qed

text \<open>
  C9: after any sequence of events from the initial state, every committed rectangle and the
  in-progress rectangle, if there is one, have a width and a height of at least 0.
\<close>

theorem rects_never_negative:
  "(\<forall>r \<in> set (selections (run evs)). 0 \<le> rect.width r \<and> 0 \<le> rect.height r)
   \<and> (\<forall>r. currentSelection (run evs) = Some r \<longrightarrow> 0 \<le> rect.width r \<and> 0 \<le> rect.height r)"
  using run_rectsOk [of evs] by (auto simp: rectsOk_def rectOk_def list_all_iff)

theorem rects_never_negative_witness:
  "selections (run oneDrag) = [\<lparr>rect.x = 10, y = 10, width = 20, height = 20\<rparr>]
   \<and> 0 \<le> rect.width (hd (selections (run oneDrag)))
   \<and> 0 \<le> rect.height (hd (selections (run oneDrag)))"
  using rects_never_negative [of oneDrag] by (simp add: run_oneDrag_selections)


section \<open>Bytes and the two compositing operators\<close>

lemma unat_byte_le: "unat (c :: byte) \<le> 255"
  using unsigned_less [of c, where 'a = nat] by simp

lemma scaleByte_zero [simp]: "scaleByte c 0 = 0"
  by (simp add: scaleByte_def)

lemma scaleByte_zero_left [simp]: "scaleByte 0 a = 0"
  by (simp add: scaleByte_def)

lemma scaleByte_full [simp]: "scaleByte c 255 = c"
proof -
  have "(unat c * 255 + 127) div 255 = unat c" by simp
  then show ?thesis by (simp add: scaleByte_def)
qed

lemma addClamp_zero [simp]: "addClamp c 0 = c"
  using unat_byte_le [of c] by (simp add: addClamp_def min_absorb2)

lemma addClamp_zero_left [simp]: "addClamp 0 c = c"
  using unat_byte_le [of c] by (simp add: addClamp_def min_absorb2)

lemma addClamp_full_zero [simp]: "addClamp 255 0 = 255"
  by simp

lemma sourceOver_opaque: "alpha s = 255 \<Longrightarrow> sourceOver s d = s"
  by (simp add: sourceOver_def)

lemma sourceOver_transparent [simp]: "sourceOver transparent d = d"
  by (simp add: sourceOver_def transparent_def)

lemma destinationIn_zero: "alpha s = 0 \<Longrightarrow> destinationIn s d = transparent"
  by (simp add: destinationIn_def transparent_def)

lemma destinationIn_full: "alpha s = 255 \<Longrightarrow> destinationIn s d = d"
  by (simp add: destinationIn_def)

lemma sourceOver_black [simp]: "sourceOver black d = black"
  by (simp add: sourceOver_opaque black_def)

lemma tint_full [simp]: "tint c 255 = c"
  by (simp add: tint_def)

lemma tint_zero [simp]: "tint c 0 = transparent"
  by (simp add: tint_def transparent_def)

section \<open>Mask rasterisation and submission: proofs\<close>

lemma overlap_int:
  "overlap (of_int a) (of_int b) k = 0 \<or> overlap (of_int a) (of_int b) k = 1"
proof -
  define v where "v = min (int k + 1) (max a b) - max (int k) (min a b)"
  have "overlap (of_int a) (of_int b) k = max 0 (of_int v)"
    by (simp add: overlap_def v_def min_def max_def)
  moreover have "v \<le> 1" by (simp add: v_def min_def max_def)
  then have "v \<le> 0 \<or> v = 1" by arith
  ultimately show ?thesis by (auto simp: max_def)
qed

lemma coverage_aligned:
  assumes "rect.x r \<in> \<int>" "rect.y r \<in> \<int>" "rect.width r \<in> \<int>" "rect.height r \<in> \<int>"
  shows "coverage r i j = 0 \<or> coverage r i j = 255"
proof -
  from assms obtain a b c d where
    r: "rect.x r = of_int a" "rect.y r = of_int b" "rect.width r = of_int c" "rect.height r = of_int d"
    by (auto elim!: Ints_cases)
  have "overlap (rect.x r) (rect.x r + rect.width r) i = 0 \<or> overlap (rect.x r) (rect.x r + rect.width r) i = 1"
    using overlap_int [of a "a + c" i] by (simp add: r)
  moreover have "overlap (rect.y r) (rect.y r + rect.height r) j = 0 \<or> overlap (rect.y r) (rect.y r + rect.height r) j = 1"
    using overlap_int [of b "b + d" j] by (simp add: r)
  ultimately show ?thesis by (auto simp: coverage_def)
qed

lemma coverage_whole:
  assumes "i < w" "j < h"
  shows "coverage \<lparr>rect.x = 0, y = 0, width = real w, height = real h\<rparr> i j = 255"
proof -
  have "overlap 0 (real w) i = 1" using assms(1) by (simp add: overlap_def max_def min_def)
  moreover have "overlap 0 (real h) j = 1" using assms(2) by (simp add: overlap_def max_def min_def)
  ultimately show ?thesis by (simp add: coverage_def)
qed

lemma fillRect_twice:
  assumes "\<And>i j. coverage r i j = 0 \<or> coverage r i j = 255"
  shows "fillRect white r (fillRect white r c) = fillRect white r c"
proof -
  have "sourceOver (tint white (coverage r i j)) (sourceOver (tint white (coverage r i j)) p)
        = sourceOver (tint white (coverage r i j)) p" for i j p
    using assms [of i j] by (auto simp: sourceOver_opaque white_def)
  then show ?thesis by (simp add: fillRect_def fun_eq_iff)
qed

lemma buildMask_snoc: "buildMask (rs @ [r]) w h = fillRect white r (buildMask rs w h)"
  by (simp add: buildMask_def)

lemma buildMask_empty:
  "buildMask [] w h = \<lparr>bitmap.width = w, height = h, pixelAt = \<lambda>i j. if i < w \<and> j < h then black else transparent\<rparr>"
  by (auto simp: buildMask_def fillRect_def createCanvas_def fun_eq_iff coverage_whole)

text \<open>
  C7, as the claim states it, fails: on a mask of 100 by 100 pixels the rectangle from
  x = 10.5 covers half of the pixel at (10, 10), which one fill leaves at 128 and a second
  fill raises to 192.
\<close>

lemma offGrid_once: "pixelAt (buildMask [offGrid] 100 100) 10 10 = \<lparr>red = 128, green = 128, blue = 128, alpha = 255\<rparr>"
  by (simp add: buildMask_def fillRect_def createCanvas_def coverage_def overlap_def offGrid_def
      white_def black_def transparent_def tint_def sourceOver_def scaleByte_def addClamp_def)

lemma offGrid_twice: "pixelAt (buildMask [offGrid, offGrid] 100 100) 10 10 = \<lparr>red = 192, green = 192, blue = 192, alpha = 255\<rparr>"
  by (simp add: buildMask_def fillRect_def createCanvas_def coverage_def overlap_def offGrid_def
      white_def black_def transparent_def tint_def sourceOver_def scaleByte_def addClamp_def)

theorem rasterize_twice_differs:
  "buildMask [offGrid, offGrid] 100 100 \<noteq> buildMask [offGrid] 100 100"
proof
  assume eq: "buildMask [offGrid, offGrid] 100 100 = buildMask [offGrid] 100 100"
  have "pixelAt (buildMask [offGrid, offGrid] 100 100) 10 10 = pixelAt (buildMask [offGrid] 100 100) 10 10"
    by (simp only: eq)
  then show False unfolding offGrid_once offGrid_twice by simp
qed

lemma sourceOver_white [simp]: "sourceOver white d = white"
  by (simp add: sourceOver_opaque white_def)

lemma buildMask_size [simp]:
  "bitmap.width (buildMask rs w h) = w" "bitmap.height (buildMask rs w h) = h"
  by (induction rs rule: rev_induct) (simp_all add: buildMask_snoc fillRect_def buildMask_empty)

lemma buildMask_union:
  assumes "list_all aligned rs" "i < w" "j < h"
  shows "pixelAt (buildMask rs w h) i j
           = (if list_ex (\<lambda>r. coverage r i j = 255) rs then white else black)"
  using assms(1)
proof (induction rs rule: rev_induct)
  case Nil
  show ?case using assms(2,3) by (simp add: buildMask_empty)
next
  case (snoc r rs)
  then have ih: "pixelAt (buildMask rs w h) i j
                   = (if list_ex (\<lambda>r. coverage r i j = 255) rs then white else black)"
    and a: "aligned r"
    by simp_all
  have "coverage r i j = 0 \<or> coverage r i j = 255"
    using a by (simp add: aligned_def coverage_aligned)
  then show ?case
    using ih assms(2,3) by (auto simp: buildMask_snoc fillRect_def)
qed

lemma buildMask_twice:
  assumes "aligned r"
  shows "buildMask [r, r] w h = buildMask [r] w h"
proof -
  have e2: "buildMask [r, r] w h = fillRect white r (buildMask [r] w h)"
    using buildMask_snoc [of "[r]" r w h] by simp
  have e1: "buildMask [r] w h = fillRect white r (buildMask [] w h)"
    using buildMask_snoc [of "[]" r w h] by simp
  show ?thesis
    unfolding e2 unfolding e1
    using assms by (simp add: fillRect_twice coverage_aligned aligned_def)
qed

text \<open>
  C7, amended: the mask of the empty list is black at every pixel; for a rectangle whose
  x, y, width and height are whole numbers the mask of the rectangle listed twice is the mask
  of the rectangle listed once; and for a list of such rectangles a pixel of the mask is
  white when one of them covers it and black otherwise.
\<close>

theorem rasterize_aligned:
  "buildMask [] w h
     = \<lparr>bitmap.width = w, height = h,
        pixelAt = \<lambda>i j. if i < w \<and> j < h then black else transparent\<rparr>
   \<and> (aligned r \<longrightarrow> buildMask [r, r] w h = buildMask [r] w h)
   \<and> (list_all aligned rs \<and> i < w \<and> j < h \<longrightarrow>
        pixelAt (buildMask rs w h) i j
          = (if list_ex (\<lambda>r. coverage r i j = 255) rs then white else black))"
  by (simp add: buildMask_empty buildMask_twice buildMask_union)

theorem rasterize_aligned_witness:
  "buildMask [block, block] 100 100 = buildMask [block] 100 100
   \<and> pixelAt (buildMask [block] 100 100) 15 15 = white
   \<and> pixelAt (buildMask [block] 100 100) 5 5 = black"
  using rasterize_aligned [of 100 100 block "[block]" 15 15]
    rasterize_aligned [of 100 100 block "[block]" 5 5]
  by (simp add: block_def aligned_def coverage_def overlap_def)

text \<open>
  C2, as the claim states it, fails: in manual mode with a committed rectangle, a click
  without a 2D context for the mask canvas submits nothing.
\<close>

theorem submit_without_context:
  "handleProcessClick constUrl False 100 100 (run oneDrag) = (Nothing, run oneDrag)"
  by (simp add: handleProcessClick_def run_oneDrag_selections run_oneDrag_mode)

text \<open>
  C2, amended: in manual mode with no committed rectangle the click shows the alert and
  does not call \<^verbatim>\<open>onProcess\<close>; in manual mode with a committed rectangle and a 2D
  context for the mask canvas the mask is built and submitted, and without the context
  nothing is submitted; in auto and tiled mode the click submits a null mask whatever the
  committed list holds. The selection state is never changed.
\<close>

theorem submission_gate:
  "(mode s = Manual \<and> selections s = [] \<longrightarrow>
      handleProcessClick enc ctx w h s = (Alert, s))
   \<and> (mode s = Manual \<and> selections s \<noteq> [] \<and> ctx \<longrightarrow>
      handleProcessClick enc ctx w h s
        = (OnProcess (Some (enc (buildMask (selections s) w h))) Manual, s))
   \<and> (mode s = Manual \<and> selections s \<noteq> [] \<and> \<not> ctx \<longrightarrow>
      handleProcessClick enc ctx w h s = (Nothing, s))
   \<and> (mode s \<noteq> Manual \<longrightarrow>
      handleProcessClick enc ctx w h s = (OnProcess None (mode s), s))
   \<and> snd (handleProcessClick enc ctx w h s) = s"
  by (simp add: handleProcessClick_def)

theorem submission_gate_witness:
  "handleProcessClick constUrl True 100 100 (run oneDrag)
     = (OnProcess (Some (constUrl (buildMask (selections (run oneDrag)) 100 100))) Manual,
        run oneDrag)
   \<and> handleProcessClick constUrl True 100 100 (run [ModeClick Manual])
     = (Alert, run [ModeClick Manual])
   \<and> handleProcessClick constUrl True 100 100 (run (oneDrag @ [ModeClick Tiled]))
     = (OnProcess None Tiled, run (oneDrag @ [ModeClick Tiled]))
   \<and> handleProcessClick constUrl False 100 100 (run oneDrag) = (Nothing, run oneDrag)"
  using submission_gate [of "run oneDrag" constUrl True 100 100]
    submission_gate [of "run oneDrag" constUrl False 100 100]
    submission_gate [of "run [ModeClick Manual]" constUrl True 100 100]
    submission_gate [of "run (oneDrag @ [ModeClick Tiled])" constUrl True 100 100]
  by (simp add: run_oneDrag_selections run_oneDrag_mode)
     (simp add: run_def initialEditor_def selectManual_def selectTiled_def)

section \<open>The loop over the pixel data\<close>

lemma pixelGrid_length [simp]: "length (pixelGrid f w h) = w * h"
  by (induction h) (simp_all add: pixelGrid_def)

lemma pixelGrid_Suc: "pixelGrid f w (Suc h) = pixelGrid f w h @ map (\<lambda>i. f i h) [0..<w]"
  by (simp add: pixelGrid_def)

lemma pixelGrid_nth: "i < w \<Longrightarrow> j < h \<Longrightarrow> pixelGrid f w h ! (j * w + i) = f i j"
proof (induction h)
  case 0
  then show ?case by simp
next
  case (Suc h)
  show ?case
  proof (cases "j < h")
    case True
    then have "Suc j * w \<le> h * w" by (intro mult_le_mono1) simp
    then have "j * w + i < length (pixelGrid f w h)"
      using Suc.prems(1) by (simp add: mult.commute)
    then have "pixelGrid f w (Suc h) ! (j * w + i) = pixelGrid f w h ! (j * w + i)"
      by (simp only: pixelGrid_Suc nth_append if_True)
    then show ?thesis using Suc True by simp
  next
    case False
    then have "j = h" using Suc.prems(2) by simp
    then have "j * w + i = length (pixelGrid f w h) + i"
      by (simp add: mult.commute)
    then have "pixelGrid f w (Suc h) ! (j * w + i) = map (\<lambda>i. f i h) [0..<w] ! i"
      by (simp only: pixelGrid_Suc nth_append_length_plus)
    then show ?thesis using Suc.prems(1) \<open>j = h\<close> by simp
  qed
qed

lemma flatten_length [simp]: "length (flatten ps) = 4 * length ps"
  by (induction ps) (simp_all add: flatten_def bytesOf_def)

lemma flatten_append [simp]: "flatten (ps @ qs) = flatten ps @ flatten qs"
  by (simp add: flatten_def)

lemma flatten_Cons: "flatten (p # ps) = bytesOf p @ flatten ps"
  by (simp add: flatten_def)

lemma flatten_Nil [simp]: "flatten [] = []"
  by (simp add: flatten_def)

lemma flatten_nth_alpha: "k < length ps \<Longrightarrow> flatten ps ! (4 * k + 3) = alpha (ps ! k)"
proof (induction ps arbitrary: k)
  case Nil
  then show ?case by simp
next
  case (Cons p ps)
  show ?case
  proof (cases k)
    case 0
    then show ?thesis by (simp add: flatten_Cons bytesOf_def)
  next
    case (Suc k')
    have "4 * k + 3 = length (bytesOf p) + (4 * k' + 3)"
      using Suc by (simp add: bytesOf_def)
    then have "flatten (p # ps) ! (4 * k + 3) = flatten ps ! (4 * k' + 3)"
      by (simp only: flatten_Cons nth_append_length_plus)
    then show ?thesis using Cons Suc by simp
  qed
qed

lemma alphaLoop_done: "length d \<le> i \<Longrightarrow> alphaLoop i d = d"
  by (subst alphaLoop.simps) simp

lemma alphaLoop_flatten:
  "alphaLoop (4 * length pre) (flatten pre @ flatten post)
     = flatten pre @ flatten (map greenToAlpha post)"
proof (induction post arbitrary: pre)
  case Nil
  show ?case by (simp add: alphaLoop_done)
next
  case (Cons p ps)
  let ?d = "flatten pre @ flatten (p # ps)"
  have rd: "readByte ?d (4 * length pre + 1) = green p"
    by (simp add: readByte_def nth_append flatten_Cons bytesOf_def)
  have upd: "?d[4 * length pre + 3 := green p] = flatten (pre @ [greenToAlpha p]) @ flatten ps"
  proof -
    have "?d[4 * length pre + 3 := green p] = flatten pre @ (flatten (p # ps))[3 := green p]"
      by (simp add: list_update_append)
    also have "(flatten (p # ps))[3 := green p] = flatten [greenToAlpha p] @ flatten ps"
      by (simp add: flatten_Cons bytesOf_def greenToAlpha_def eval_nat_numeral)
    finally show ?thesis by simp
  qed
  have "alphaLoop (4 * length pre) ?d = alphaLoop (4 * length pre + 4) (?d[4 * length pre + 3 := readByte ?d (4 * length pre + 1)])"
    by (subst alphaLoop.simps) (simp add: flatten_Cons bytesOf_def)
  also have "\<dots> = alphaLoop (4 * length (pre @ [greenToAlpha p])) (flatten (pre @ [greenToAlpha p]) @ flatten ps)"
  proof -
    have "4 * length pre + 4 = 4 * length (pre @ [greenToAlpha p])" by simp
    then show ?thesis by (simp only: rd upd)
  qed
  also have "\<dots> = flatten (pre @ [greenToAlpha p]) @ flatten (map greenToAlpha ps)"
    by (rule Cons.IH)
  finally show ?case by (simp add: flatten_Cons flatten_def)
qed

lemma alphaLoop_whole: "alphaLoop 0 (flatten ps) = flatten (map greenToAlpha ps)"
  using alphaLoop_flatten [of "[]" ps] by (simp add: flatten_def)

lemma sourceOver_onto_transparent [simp]: "sourceOver s transparent = s"
  by (simp add: sourceOver_def transparent_def)

lemma destinationIn_alpha: "alpha s = alpha s' \<Longrightarrow> destinationIn s d = destinationIn s' d"
  by (simp add: destinationIn_def)

lemma alphaMask_ok:
  assumes "hasContext env AlphaMaskCanvas" "0 < w" "0 < h"
  shows "\<exists>am. alphaMask env m w h = Inr am \<and> bitmap.width am = w \<and> bitmap.height am = h
           \<and> (\<forall>i j. i < w \<longrightarrow> j < h \<longrightarrow>
                 alpha (pixelAt am i j) = brightness (premultiply (resample env m w h i j)))"
proof -
  define c where "c = drawImageScaled (resample env) SourceOver m w h (createCanvas w h)"
  define grid where "grid = pixelGrid (\<lambda>i j. straight (canvasPixel c i j)) w h"
  have cp: "canvasPixel c i j = premultiply (resample env m w h i j)" if "i < w" "j < h" for i j
    using that by (simp add: c_def canvasPixel_def drawImageScaled_def createCanvas_def)
  have dims: "bitmap.width c = w" "bitmap.height c = h"
    by (simp_all add: c_def drawImageScaled_def createCanvas_def)
  have am: "alphaMask env m w h
              = Inr (putImageData \<lparr>iwidth = w, iheight = h, data = flatten (map greenToAlpha grid)\<rparr> c)"
    using assms by (simp add: alphaMask_def c_def [symmetric] getImageData_def Let_def
        grid_def [symmetric] alphaLoop_whole)
  have px: "alpha (pixelAt (putImageData \<lparr>iwidth = w, iheight = h, data = flatten (map greenToAlpha grid)\<rparr> c) i j)
              = brightness (premultiply (resample env m w h i j))" if "i < w" "j < h" for i j
  proof -
    have "Suc j * w \<le> h * w" using that(2) by (intro mult_le_mono1) simp
    then have lt: "j * w + i < w * h" using that(1) by (simp add: mult.commute)
    then have len: "4 * (j * w + i) + 3 < length (flatten (map greenToAlpha grid))"
      by (simp add: grid_def)
    have lt': "j * w + i < length (map greenToAlpha grid)"
      using lt by (simp add: grid_def)
    have "readByte (flatten (map greenToAlpha grid)) (4 * (j * w + i) + 3)
            = flatten (map greenToAlpha grid) ! (4 * (j * w + i) + 3)"
      using len by (simp only: readByte_def if_True)
    also have "\<dots> = alpha (map greenToAlpha grid ! (j * w + i))"
      using lt' by (rule flatten_nth_alpha)
    also have "\<dots> = green (grid ! (j * w + i))"
      using lt by (simp add: grid_def greenToAlpha_def)
    also have "\<dots> = brightness (premultiply (resample env m w h i j))"
      using that by (simp add: grid_def pixelGrid_nth cp brightness_def)
    finally show ?thesis
      using that by (simp add: putImageData_def dims premultiply_def Let_def)
  qed
  show ?thesis
    unfolding am using px by (simp add: putImageData_def dims)
qed

section \<open>Compositing: proofs\<close>

lemma alphaMask_InrD:
  "alphaMask env m w h = Inr am \<Longrightarrow> hasContext env AlphaMaskCanvas \<and> 0 < w \<and> 0 < h"
  by (auto simp: alphaMask_def getImageData_def Let_def split: if_splits)

lemma compositeCanvas_InrD:
  assumes "compositeCanvas env ob mb rb = Inr out"
  shows "\<exists>original m result.
           loadImage env ob = Some original \<and> loadImage env mb = Some m
           \<and> loadImage env rb = Some result
           \<and> hasContext env MainCanvas \<and> hasContext env MaskCanvas
           \<and> hasContext env AlphaMaskCanvas
           \<and> 0 < bitmap.width original \<and> 0 < bitmap.height original"
  using assms
  by (auto simp: compositeCanvas_def Let_def split: option.splits if_splits sum.splits
      dest: alphaMask_InrD)

lemma compositeCanvas_ok:
  assumes "loadImage env ob = Some original" "loadImage env mb = Some m"
    "loadImage env rb = Some result"
    "hasContext env MainCanvas" "hasContext env MaskCanvas" "hasContext env AlphaMaskCanvas"
    "0 < bitmap.width original" "0 < bitmap.height original"
  shows "\<exists>out. compositeCanvas env ob mb rb = Inr out
           \<and> bitmap.width out = bitmap.width original
           \<and> bitmap.height out = bitmap.height original
           \<and> (\<forall>i j. i < bitmap.width original \<longrightarrow> j < bitmap.height original \<longrightarrow>
                 pixelAt out i j =
                   sourceOver
                     (destinationIn
                        \<lparr>red = 0, green = 0, blue = 0,
                         alpha = brightness (premultiply
                           (resample env m (bitmap.width original) (bitmap.height original) i j))\<rparr>
                        (premultiply
                           (resample env result (bitmap.width original) (bitmap.height original) i j)))
                     (premultiply (pixelAt original i j)))"
proof -
  let ?w = "bitmap.width original" and ?h = "bitmap.height original"
  obtain am where am: "alphaMask env m ?w ?h = Inr am"
    "bitmap.width am = ?w" "bitmap.height am = ?h"
    "\<And>i j. i < ?w \<Longrightarrow> j < ?h \<Longrightarrow>
        alpha (pixelAt am i j) = brightness (premultiply (resample env m ?w ?h i j))"
    using alphaMask_ok [OF assms(6,7,8), of m] by blast
  let ?out = "drawImage SourceOver
                (drawImage DestinationIn am
                   (drawImageScaled (resample env) SourceOver result ?w ?h (createCanvas ?w ?h)))
                (drawImage SourceOver (premultiplied original) (createCanvas ?w ?h))"
  have c: "compositeCanvas env ob mb rb = Inr ?out"
    using assms am(1) by (simp add: compositeCanvas_def Let_def)
  have px: "pixelAt ?out i j =
              sourceOver (destinationIn (pixelAt am i j) (premultiply (resample env result ?w ?h i j)))
                (premultiply (pixelAt original i j))" if "i < ?w" "j < ?h" for i j
    using that am(2,3)
    by (simp add: drawImage_def drawImageScaled_def createCanvas_def premultiplied_def)
  have "pixelAt ?out i j =
          sourceOver
            (destinationIn \<lparr>red = 0, green = 0, blue = 0,
                            alpha = brightness (premultiply (resample env m ?w ?h i j))\<rparr>
               (premultiply (resample env result ?w ?h i j)))
            (premultiply (pixelAt original i j))" if "i < ?w" "j < ?h" for i j
    using px [OF that] am(4) [OF that]
      destinationIn_alpha [of "pixelAt am i j"
        "\<lparr>red = 0, green = 0, blue = 0,
          alpha = brightness (premultiply (resample env m ?w ?h i j))\<rparr>"]
    by simp
  moreover have "bitmap.width ?out = ?w" "bitmap.height ?out = ?h"
    by (simp_all add: drawImage_def createCanvas_def)
  ultimately show ?thesis using c by blast
qed

lemma premultiply_opaque: "alpha p = 255 \<Longrightarrow> premultiply p = p"
  by (simp add: premultiply_def)

lemma unmultiply_full [simp]: "unmultiply c 255 = c"
proof -
  have "(unat c * 255 + 127) div 255 = unat c" by simp
  then show ?thesis using unat_byte_le [of c] by (simp add: unmultiply_def min_absorb2)
qed

lemma straight_opaque: "alpha p = 255 \<Longrightarrow> straight p = p"
  by (simp add: straight_def)

lemma canvasImage_pixel:
  "i < bitmap.width c \<Longrightarrow> j < bitmap.height c
     \<Longrightarrow> pixelAt (canvasImage c) i j = straight (pixelAt c i j)"
  by (simp add: canvasImage_def canvasPixel_def)

lemma canvasImage_size [simp]:
  "bitmap.width (canvasImage c) = bitmap.width c" "bitmap.height (canvasImage c) = bitmap.height c"
  by (simp_all add: canvasImage_def)

lemma files_simps [simp]:
  "loadImage (files fs) = map_of fs" "hasContext (files fs) c" "resample (files fs) = nearest"
  by (simp_all add: files_def)

lemma brightness_opaque: "alpha p = 255 \<Longrightarrow> brightness p = green p"
  by (simp add: brightness_def straight_opaque)

text \<open>
  C1, as the claim states it, fails: where the mask is white but the replacement pixel is
  translucent, the output pixel is the replacement blended over the original, not the
  replacement pixel.
\<close>

theorem translucent_result_blends:
  "brightness (premultiply (resample sceneGlass (solid 1 1 white) 1 1 0 0)) = 255
   \<and> resample sceneGlass (solid 1 1 \<lparr>red = 200, green = 0, blue = 0, alpha = 128\<rparr>) 1 1 0 0
       = \<lparr>red = 200, green = 0, blue = 0, alpha = 128\<rparr>
   \<and> outputPixel (compositeCanvas sceneGlass ''original'' ''mask'' ''result'') 0 0
       = Some \<lparr>red = 105, green = 10, blue = 15, alpha = 255\<rparr>"
proof -
  let ?o = "solid 1 1 \<lparr>red = 10, green = 20, blue = 30, alpha = 255\<rparr>"
  let ?m = "solid 1 1 white"
  let ?r = "solid 1 1 \<lparr>red = 200, green = 0, blue = 0, alpha = 128\<rparr>"
  have l: "loadImage sceneGlass ''original'' = Some ?o" "loadImage sceneGlass ''mask'' = Some ?m"
    "loadImage sceneGlass ''result'' = Some ?r"
    by (simp_all add: sceneGlass_def)
  have c: "hasContext sceneGlass MainCanvas" "hasContext sceneGlass MaskCanvas"
    "hasContext sceneGlass AlphaMaskCanvas"
    by (simp_all add: sceneGlass_def)
  have d: "0 < bitmap.width ?o" "0 < bitmap.height ?o" by (simp_all add: solid_def)
  have wh: "bitmap.width ?o = 1" "bitmap.height ?o = 1" by (simp_all add: solid_def)
  have b: "brightness (premultiply (resample sceneGlass ?m 1 1 0 0)) = 255"
    by (simp add: sceneGlass_def nearest_def canvasPixel_def solid_def brightness_opaque
        premultiply_opaque white_def)
  have r: "resample sceneGlass ?r 1 1 0 0 = \<lparr>red = 200, green = 0, blue = 0, alpha = 128\<rparr>"
    by (simp add: sceneGlass_def nearest_def canvasPixel_def solid_def)
  obtain out where out: "compositeCanvas sceneGlass ''original'' ''mask'' ''result'' = Inr out"
    and size: "bitmap.width out = bitmap.width ?o" "bitmap.height out = bitmap.height ?o"
    and px: "pixelAt out 0 0 =
      sourceOver
        (destinationIn \<lparr>red = 0, green = 0, blue = 0,
                        alpha = brightness (premultiply
                          (resample sceneGlass ?m (bitmap.width ?o) (bitmap.height ?o) 0 0))\<rparr>
           (premultiply (resample sceneGlass ?r (bitmap.width ?o) (bitmap.height ?o) 0 0)))
        (premultiply (pixelAt ?o 0 0))"
    using compositeCanvas_ok [OF l c d] d by blast
  have "pixelAt out 0 0 = \<lparr>red = 105, green = 10, blue = 15, alpha = 255\<rparr>"
    unfolding px wh b r
    by (simp add: destinationIn_full sourceOver_def solid_def scaleByte_def addClamp_def
        premultiply_def)
  moreover have "0 < bitmap.width out" "0 < bitmap.height out"
    using size d by simp_all
  then have "pixelAt (canvasImage out) 0 0 = straight (pixelAt out 0 0)"
    by (rule canvasImage_pixel)
  ultimately
  have "pixelAt (canvasImage out) 0 0 = \<lparr>red = 105, green = 10, blue = 15, alpha = 255\<rparr>"
    by (simp add: straight_opaque)
  then show ?thesis using b r by (simp add: out outputPixel_def)
qed

text \<open>
  An original pixel that is not opaque does not come back byte for byte either: the canvas
  stores it multiplied by its alpha and the encoder divides again, so that the red byte 200
  at alpha 128 under a black mask is returned as 199. The docstring of
  \<^verbatim>\<open>compositeImage\<close> promises pixels identical to the original outside the mask; the
  amended statement below says nothing of pixels that are not opaque.
\<close>

lemma translucent_original_shifts:
  "outputPixel (compositeCanvas sceneVeil ''original'' ''mask'' ''result'') 0 0
     = Some \<lparr>red = 199, green = 100, blue = 50, alpha = 128\<rparr>"
proof -
  let ?o = "solid 1 1 \<lparr>red = 200, green = 100, blue = 50, alpha = 128\<rparr>"
  let ?m = "solid 1 1 black"
  let ?r = "solid 1 1 \<lparr>red = 255, green = 0, blue = 0, alpha = 255\<rparr>"
  have l: "loadImage sceneVeil ''original'' = Some ?o" "loadImage sceneVeil ''mask'' = Some ?m"
    "loadImage sceneVeil ''result'' = Some ?r"
    by (simp_all add: sceneVeil_def)
  have c: "hasContext sceneVeil MainCanvas" "hasContext sceneVeil MaskCanvas"
    "hasContext sceneVeil AlphaMaskCanvas"
    by (simp_all add: sceneVeil_def)
  have d: "0 < bitmap.width ?o" "0 < bitmap.height ?o" by (simp_all add: solid_def)
  have wh: "bitmap.width ?o = 1" "bitmap.height ?o = 1" by (simp_all add: solid_def)
  have b: "brightness (premultiply (resample sceneVeil ?m 1 1 0 0)) = 0"
    by (simp add: sceneVeil_def nearest_def canvasPixel_def solid_def brightness_opaque
        premultiply_opaque black_def)
  obtain out where out: "compositeCanvas sceneVeil ''original'' ''mask'' ''result'' = Inr out"
    and size: "bitmap.width out = bitmap.width ?o" "bitmap.height out = bitmap.height ?o"
    and px: "pixelAt out 0 0 =
      sourceOver
        (destinationIn \<lparr>red = 0, green = 0, blue = 0,
                        alpha = brightness (premultiply
                          (resample sceneVeil ?m (bitmap.width ?o) (bitmap.height ?o) 0 0))\<rparr>
           (premultiply (resample sceneVeil ?r (bitmap.width ?o) (bitmap.height ?o) 0 0)))
        (premultiply (pixelAt ?o 0 0))"
    using compositeCanvas_ok [OF l c d] d by blast
  have "pixelAt out 0 0 = \<lparr>red = 100, green = 50, blue = 25, alpha = 128\<rparr>"
    unfolding px wh b
    by (simp add: destinationIn_zero solid_def scaleByte_def premultiply_def)
  moreover have "0 < bitmap.width out" "0 < bitmap.height out"
    using size d by simp_all
  then have "pixelAt (canvasImage out) 0 0 = straight (pixelAt out 0 0)"
    by (rule canvasImage_pixel)
  ultimately
  have "pixelAt (canvasImage out) 0 0 = \<lparr>red = 199, green = 100, blue = 50, alpha = 128\<rparr>"
    by (simp add: straight_def unmultiply_def)
  then show ?thesis by (simp add: out outputPixel_def)
qed

text \<open>
  C1, amended: when the three images load and each canvas has a 2D context, compositing
  succeeds, and in the image that \<^verbatim>\<open>compositeImage\<close> encodes and returns a pixel where
  the alpha derived from the scaled mask is 0 and the original's pixel is opaque is the
  original's pixel, byte for byte, and a pixel where that alpha is 255 and the scaled
  replacement's pixel is opaque is the scaled replacement's pixel.
\<close>

theorem composite_pixels:
  assumes "loadImage env originalB64 = Some original"
    and "loadImage env maskB64 = Some mask'"
    and "loadImage env resultB64 = Some result"
    and "hasContext env MainCanvas" and "hasContext env MaskCanvas"
    and "hasContext env AlphaMaskCanvas"
    and "i < bitmap.width original" and "j < bitmap.height original"
  shows "\<exists>out. compositeCanvas env originalB64 maskB64 resultB64 = Inr out
           \<and> compositeImage env originalB64 maskB64 resultB64
                = (case toDataURL env out of None \<Rightarrow> resultB64 | Some url \<Rightarrow> url)
           \<and> (brightness (premultiply
                  (resample env mask' (bitmap.width original) (bitmap.height original) i j)) = 0
                \<and> alpha (pixelAt original i j) = 255
               \<longrightarrow> pixelAt (canvasImage out) i j = pixelAt original i j)
           \<and> (brightness (premultiply
                  (resample env mask' (bitmap.width original) (bitmap.height original) i j)) = 255
                \<and> alpha (resample env result (bitmap.width original) (bitmap.height original) i j) = 255
               \<longrightarrow> pixelAt (canvasImage out) i j
                     = resample env result (bitmap.width original) (bitmap.height original) i j)"
proof -
  have pos: "0 < bitmap.width original" "0 < bitmap.height original"
    using assms(7,8) by simp_all
  from compositeCanvas_ok [OF assms(1-6) pos]
  obtain out where out: "compositeCanvas env originalB64 maskB64 resultB64 = Inr out"
    and size: "bitmap.width out = bitmap.width original" "bitmap.height out = bitmap.height original"
    and px: "pixelAt out i j =
               sourceOver
                 (destinationIn
                    \<lparr>red = 0, green = 0, blue = 0,
                     alpha = brightness (premultiply
                       (resample env mask' (bitmap.width original) (bitmap.height original) i j))\<rparr>
                    (premultiply
                       (resample env result (bitmap.width original) (bitmap.height original) i j)))
                 (premultiply (pixelAt original i j))"
    using assms(7,8) by blast
  have img: "pixelAt (canvasImage out) i j = straight (pixelAt out i j)"
    using assms(7,8) size by (simp add: canvasImage_pixel)
  show ?thesis
    using out
    by (auto simp: img px compositeImage_def destinationIn_zero destinationIn_full
        sourceOver_opaque premultiply_opaque straight_opaque)
qed

theorem composite_pixels_witness:
  "outputPixel (compositeCanvas sceneA ''original'' ''mask'' ''result'') 0 0
     = Some \<lparr>red = 10, green = 20, blue = 30, alpha = 255\<rparr>
   \<and> outputPixel (compositeCanvas sceneA ''original'' ''mask'' ''result'') 1 0
     = Some \<lparr>red = 255, green = 0, blue = 0, alpha = 255\<rparr>"
proof -
  let ?o = "twoPixels \<lparr>red = 10, green = 20, blue = 30, alpha = 255\<rparr>
              \<lparr>red = 40, green = 50, blue = 60, alpha = 255\<rparr>"
  let ?m = "twoPixels black white"
  let ?r = "solid 2 1 \<lparr>red = 255, green = 0, blue = 0, alpha = 255\<rparr>"
  have l: "loadImage sceneA ''original'' = Some ?o" "loadImage sceneA ''mask'' = Some ?m"
    "loadImage sceneA ''result'' = Some ?r"
    by (simp_all add: sceneA_def)
  have c: "hasContext sceneA MainCanvas" "hasContext sceneA MaskCanvas"
    "hasContext sceneA AlphaMaskCanvas"
    by (simp_all add: sceneA_def)
  have w: "bitmap.width ?o = 2" "bitmap.height ?o = 1" by (simp_all add: twoPixels_def)
  have b0: "brightness (premultiply (resample sceneA ?m 2 1 0 0)) = 0"
    by (simp add: sceneA_def nearest_def canvasPixel_def twoPixels_def brightness_opaque
        premultiply_opaque black_def)
  have b1: "brightness (premultiply (resample sceneA ?m 2 1 1 0)) = 255"
    by (simp add: sceneA_def nearest_def canvasPixel_def twoPixels_def brightness_opaque
        premultiply_opaque white_def)
  have r1: "resample sceneA ?r 2 1 1 0 = \<lparr>red = 255, green = 0, blue = 0, alpha = 255\<rparr>"
    by (simp add: sceneA_def nearest_def canvasPixel_def solid_def)
  have o0: "pixelAt ?o 0 0 = \<lparr>red = 10, green = 20, blue = 30, alpha = 255\<rparr>"
    by (simp add: twoPixels_def)
  from composite_pixels [OF l c, of 0 0] b0 o0
  have "outputPixel (compositeCanvas sceneA ''original'' ''mask'' ''result'') 0 0
          = Some \<lparr>red = 10, green = 20, blue = 30, alpha = 255\<rparr>"
    by (auto simp: w outputPixel_def)
  moreover from composite_pixels [OF l c, of 1 0] b1 r1
  have "outputPixel (compositeCanvas sceneA ''original'' ''mask'' ''result'') 1 0
          = Some \<lparr>red = 255, green = 0, blue = 0, alpha = 255\<rparr>"
    by (auto simp: w outputPixel_def)
  ultimately show ?thesis by simp
qed

text \<open>
  C3: when one of the three images does not load, a canvas has no 2D context, a step of the
  drawing throws or the encoding throws, \<^verbatim>\<open>compositeImage\<close> returns the replacement's
  URL as it was given.
\<close>

theorem composite_fallback:
  assumes "loadImage env originalB64 = None \<or> loadImage env maskB64 = None
           \<or> loadImage env resultB64 = None
           \<or> \<not> hasContext env MainCanvas \<or> \<not> hasContext env MaskCanvas
           \<or> \<not> hasContext env AlphaMaskCanvas
           \<or> (\<exists>e. compositeCanvas env originalB64 maskB64 resultB64 = Inl e)
           \<or> (\<exists>c. compositeCanvas env originalB64 maskB64 resultB64 = Inr c
                    \<and> toDataURL env c = None)"
  shows "compositeImage env originalB64 maskB64 resultB64 = resultB64"
proof (cases "compositeCanvas env originalB64 maskB64 resultB64")
  case (Inl e)
  then show ?thesis by (simp add: compositeImage_def)
next
  case (Inr c)
  from compositeCanvas_InrD [OF Inr] assms Inr have "toDataURL env c = None" by auto
  then show ?thesis using Inr by (simp add: compositeImage_def)
qed

theorem composite_fallback_witness:
  "compositeImage sceneA ''original'' ''missing'' ''result'' = ''result''
   \<and> compositeImage (sceneA\<lparr>hasContext := \<lambda>c. c \<noteq> MaskCanvas\<rparr>) ''original'' ''mask'' ''result''
       = ''result''"
  using composite_fallback [of sceneA "''original''" "''missing''" "''result''"]
    composite_fallback [of "sceneA\<lparr>hasContext := \<lambda>c. c \<noteq> MaskCanvas\<rparr>"
      "''original''" "''mask''" "''result''"]
  by (simp add: sceneA_def)






section \<open>The request: proofs\<close>

text \<open>
  C10: in tiled mode the request holds the image and the tiled prompt and no mask, whatever
  mask is passed, and the result is the response's image as it came, never composited.
\<close>

theorem tiled_ignores_mask:
  "requestParts imageBase64 maskBase64 Tiled
     = [InlineData ''image/png'' (cleanBase64 imageBase64), Text tiledPrompt]
   \<and> removeWatermark ai env imageBase64 maskBase64 Tiled
     = (case ai [InlineData ''image/png'' (cleanBase64 imageBase64), Text tiledPrompt] of
          Inl e \<Rightarrow> Inl e
        | Inr response \<Rightarrow> firstResult response)"
  by (simp add: requestParts_def removeWatermark_def split: sum.splits)


end
